theory Spec2Isabelle
  imports Main "HOL-Library.Word" "HOL-Library.Signed_Division"
begin

unbundle bit_operations_syntax

section \<open>Machine types of \<^verbatim>\<open>dispatch.go\<close>\<close>

text \<open>
  \<^verbatim>\<open>uint32\<close> is a 32-bit word and \<^verbatim>\<open>time.Duration\<close> (an \<^verbatim>\<open>int64\<close> count of
  nanoseconds) a 64-bit word read through \<open>sint\<close>. Go's \<^verbatim>\<open>uint\<close> and \<^verbatim>\<open>int\<close> are
  taken at their 64-bit width: \<^verbatim>\<open>uint\<close> is a 64-bit word, and an \<^verbatim>\<open>int\<close> that only
  ever holds a difference of two \<^verbatim>\<open>uint32\<close> values or a small counter is an \<open>int\<close>.
  A \<^verbatim>\<open>time.Time\<close> is the number of nanoseconds since Go's zero time (January 1,
  year 1), so the zero value of a \<^verbatim>\<open>time.Time\<close> field is \<open>0\<close>, and
  \<^verbatim>\<open>t.Add(d)\<close> is \<open>t + sint d\<close>.
\<close>

type_synonym u32 = "32 word"
type_synonym u64 = "64 word"
type_synonym duration = "64 word"
type_synonym time = int

definition time_Add :: "time \<Rightarrow> duration \<Rightarrow> time" where
  "time_Add t d = t + sint d"

definition time_After :: "time \<Rightarrow> time \<Rightarrow> bool" where
  "time_After t u = (u < t)"

text \<open>Go's \<^verbatim>\<open>/\<close> and \<^verbatim>\<open>%\<close> on \<^verbatim>\<open>int64\<close> truncate towards zero and wrap.\<close>

definition duration_div :: "duration \<Rightarrow> duration \<Rightarrow> duration" where
  "duration_div a b = word_of_int (sint a sdiv sint b)"

definition duration_rem :: "duration \<Rightarrow> duration \<Rightarrow> duration" where
  "duration_rem a b = word_of_int (sint a smod sint b)"

section \<open>Configuration\<close>

text \<open>
  The interface \<^verbatim>\<open>Scale\<close> is declared outside \<^verbatim>\<open>dispatch.go\<close>; the governor only
  calls its two methods, so a scale policy is any pair of functions on \<^verbatim>\<open>uint32\<close>.
\<close>

record Scale =
  Apply :: "u32 \<Rightarrow> u32"
  ApplyInverse :: "u32 \<Rightarrow> u32"

text \<open>
  Modelled from the spec: the predefined policies \<^verbatim>\<open>Constant\<close>, \<^verbatim>\<open>Incremental\<close>
  and \<^verbatim>\<open>Exponential\<close> are missing from the sources. Section 4.2 gives them as
  \<open>n\<close>; \<open>n + 1\<close> and \<open>n - 1\<close> with floor 0; \<open>max(1, 2n)\<close> and \<open>n / 2\<close>.
\<close>

definition Constant :: Scale where
  "Constant = \<lparr>Apply = (\<lambda>n. n), ApplyInverse = (\<lambda>n. n)\<rparr>"

definition Incremental :: Scale where
  "Incremental = \<lparr>Apply = (\<lambda>n. n + 1), ApplyInverse = (\<lambda>n. if n = 0 then 0 else n - 1)\<rparr>"

definition Exponential :: Scale where
  "Exponential = \<lparr>Apply = (\<lambda>n. max 1 (2 * n)), ApplyInverse = (\<lambda>n. n div 2)\<rparr>"

text \<open>
  \<^verbatim>\<open>ProcCfg\<close>, with the fields that \<^verbatim>\<open>dispatch.go\<close> reads. \<^verbatim>\<open>RetryEval\<close>,
  \<^verbatim>\<open>MaxRate\<close>, \<^verbatim>\<open>MaxBandwidth\<close> and the three HTTP/2 knobs are only passed on to
  streamers and are read by no function of the file.
\<close>

record ProcCfg =
  MaxRetries :: u32
  MinConns :: u32
  MaxConns :: u32
  Scale :: Scale
  MinSustain :: duration
  PollInterval :: duration
  SettlePeriod :: duration

definition minSustainPollPeriods :: "ProcCfg \<Rightarrow> u32" where
  "minSustainPollPeriods c =
     (if MinSustain c \<le>s 0 \<or> PollInterval c \<le>s 0 then NOT 0
      else
        let res = duration_div (MinSustain c) (PollInterval c);
            res = (if 0 <s duration_rem (MinSustain c) (PollInterval c) then res + 1 else res)
        in ucast res)"

section \<open>Wait counters\<close>

record waitCounter =
  waits :: u32
  noWaits :: u32

definition acc :: "waitCounter \<Rightarrow> u32 \<Rightarrow> waitCounter" where
  "acc c val =
     (if 0 < val then c\<lparr>waits := waits c + 1, noWaits := 0\<rparr>
      else c\<lparr>waits := 0, noWaits := noWaits c + 1\<rparr>)"

section \<open>Go maps keyed by pointers\<close>

text \<open>
  \<^verbatim>\<open>streamers\<close> and \<^verbatim>\<open>launchers\<close> are maps from a pointer to the control channel
  stored in the object itself, so a map is the list of its keys. The operations keep a
  key list free of duplicates and read it through \<open>remdups\<close>; iteration order does not
  matter to any function below. \<^verbatim>\<open>&launcher{...}\<close> yields an address different from
  every live launcher.
\<close>

type_synonym ptr = nat

definition map_len :: "ptr list \<Rightarrow> nat" where
  "map_len ks = length (remdups ks)"

definition map_put :: "ptr \<Rightarrow> ptr list \<Rightarrow> ptr list" where
  "map_put k ks = (if k \<in> set ks then ks else k # ks)"

definition map_delete :: "ptr \<Rightarrow> ptr list \<Rightarrow> ptr list" where
  "map_delete k ks = removeAll k ks"

definition new_ptr :: "ptr list \<Rightarrow> ptr" where
  "new_ptr ks = Suc (fold max ks 0)"

section \<open>The governor\<close>

text \<open>Calls of \<^verbatim>\<open>logInfo\<close>, \<^verbatim>\<open>logWarn\<close> and \<^verbatim>\<open>logTrace\<close>, in order.\<close>

datatype logLine =
    Info string
  | WarnStartErr string
  | TraceDelta int

text \<open>
  A launcher: its address, the number printed into its \<^verbatim>\<open>id\<close>, and the two result
  fields. A streamer is declared outside the file; its exit record carries the two flags
  the governor reads.
\<close>

record launcher =
  lptr :: ptr
  lid :: u64
  err :: "string option"
  worker :: "ptr option"

record streamer =
  sptr :: ptr
  inClosed :: bool
  didQuit :: bool

text \<open>
  The fields of \<^verbatim>\<open>governor\<close> that the event loop reads and writes, followed by its
  effects: the log, the \<^verbatim>\<open>go l.launch()\<close> tasks started, the control channels closed
  on termination and whether \<^verbatim>\<open>done\<close> was closed.
\<close>

record governor =
  gid :: string
  cfg :: ProcCfg
  minSust :: u32
  nonBlocking :: bool
  inCtr :: waitCounter
  outCtr :: waitCounter
  streamers :: "ptr list"
  launchers :: "ptr list"
  nextWId :: u64
  lastScale :: time
  isClosing :: bool
  logged :: "logLine list"
  goLaunch :: "launcher list"
  closedCtl :: "ptr list"
  doneClosed :: bool

text \<open>
  \<^verbatim>\<open>updateCountersAndEvalScaling\<close>: \<open>ics\<close> is what \<^verbatim>\<open>g.c.waitCtr.Fold()\<close> returns
  and \<open>ocf w\<close> what \<^verbatim>\<open>w.waitCtr.Fold()\<close> returns for streamer \<open>w\<close>.
\<close>

definition updateCountersAndEvalScaling ::
  "governor \<Rightarrow> u32 \<Rightarrow> (ptr \<Rightarrow> u32) \<Rightarrow> governor \<times> int" where
  "updateCountersAndEvalScaling g ics ocf =
     (let ocs = fold (\<lambda>w s. s + ocf w) (remdups (streamers g)) 0;
          g = g\<lparr>inCtr := acc (inCtr g) ics\<rparr>;
          g = g\<lparr>outCtr := acc (outCtr g) ocs\<rparr>
      in if minSust g \<le> waits (inCtr g) \<and> minSust g \<le> noWaits (outCtr g) then (g, 1)
         else if minSust g \<le> noWaits (inCtr g) then (g, - 1)
         else (g, 0))"

text \<open>
  \<^verbatim>\<open>allowedScaleDelta\<close>: \<open>now\<close> is the reading of \<^verbatim>\<open>time.Now()\<close>. The target
  \<open>req\<close> is \<open>None\<close> on the two early returns inside the branches.
\<close>

definition allowedScaleDelta :: "governor \<Rightarrow> time \<Rightarrow> bool \<Rightarrow> int" where
  "allowedScaleDelta g now forScaleUp =
     (if isClosing g then 0
      else if time_After (time_Add (lastScale g) (SettlePeriod (cfg g))) now then 0
      else if \<not> nonBlocking g \<and> 0 < map_len (launchers g) then 0
      else
        let prov = (of_nat (map_len (streamers g) + map_len (launchers g)) :: u32);
            req = (if forScaleUp
                   then (if MaxConns (cfg g) \<le> prov then None
                         else Some (Apply (Scale (cfg g)) prov))
                   else (if prov \<le> MinConns (cfg g) then None
                         else Some (ApplyInverse (Scale (cfg g)) prov)))
        in case req of
             None \<Rightarrow> 0
           | Some req \<Rightarrow>
               let req = (if req < MinConns (cfg g) then MinConns (cfg g) else req);
                   req = (if MaxConns (cfg g) < req then MaxConns (cfg g) else req)
               in uint req - uint prov)"

definition launchStreamer :: "governor \<Rightarrow> governor" where
  "launchStreamer g =
     (let l = \<lparr>lptr = new_ptr (launchers g), lid = nextWId g, err = None, worker = None\<rparr>
      in g\<lparr>nextWId := nextWId g + 1,
            launchers := map_put (lptr l) (launchers g),
            goLaunch := goLaunch g @ [l]\<rparr>)"

primrec launchLoop :: "nat \<Rightarrow> governor \<Rightarrow> governor" where
  "launchLoop 0 g = g"
| "launchLoop (Suc n) g = launchLoop n (launchStreamer g)"

definition tryScaleUp :: "governor \<Rightarrow> time \<Rightarrow> governor" where
  "tryScaleUp g now =
     (let delta = allowedScaleDelta g now True;
          g = g\<lparr>logged := logged g @ [TraceDelta delta]\<rparr>
      in if delta \<le> 0 then g else launchLoop (nat delta) g)"

definition tryWindDown :: "governor \<Rightarrow> governor" where
  "tryWindDown g = g"

text \<open>
  The events of the \<^verbatim>\<open>select\<close> in \<^verbatim>\<open>run\<close>: a launcher or a streamer received from
  its exit channel, a tick (with the clock reading and the \<^verbatim>\<open>Fold\<close> results that the
  handler would obtain), and the closing of \<^verbatim>\<open>ctl\<close>.
\<close>

datatype event =
    LExit launcher
  | WExit streamer
  | Tick time u32 "ptr \<Rightarrow> u32"
  | Ctl

text \<open>The selected case; the flag is the loop variable \<^verbatim>\<open>done\<close>.\<close>

fun selected :: "governor \<Rightarrow> event \<Rightarrow> governor \<times> bool" where
  "selected g (LExit l) =
     (let g = g\<lparr>launchers := map_delete (lptr l) (launchers g)\<rparr>
      in case worker l of
           Some w \<Rightarrow> (g\<lparr>streamers := map_put w (streamers g)\<rparr>, False)
         | None \<Rightarrow>
             (case err l of
                Some e \<Rightarrow> (g\<lparr>logged := logged g @ [WarnStartErr e]\<rparr>, False)
              | None \<Rightarrow> (g, False)))"
| "selected g (WExit w) =
     (let g = (if inClosed w \<and> \<not> isClosing g
               then g\<lparr>logged := logged g @ [Info ''Stopping.''], isClosing := True\<rparr>
               else g);
          g = g\<lparr>streamers := map_delete (sptr w) (streamers g)\<rparr>;
          g = (if didQuit w then launchStreamer g else g)
      in (g, False))"
| "selected g (Tick now ics ocf) =
     (if isClosing g then (g, False)
      else
        let (g, s) = updateCountersAndEvalScaling g ics ocf
        in if 0 < s then (tryScaleUp g now, False)
           else if s < 0 then (tryWindDown g, False)
           else (g, False))"
| "selected g Ctl = (g\<lparr>logged := logged g @ [Info ''Terminating.'']\<rparr>, True)"

text \<open>One iteration of the loop: the selected case, then the test for a finished drain.\<close>

definition iteration :: "governor \<Rightarrow> event \<Rightarrow> governor \<times> bool" where
  "iteration g ev =
     (let (g, fin) = selected g ev
      in if \<not> fin \<and> isClosing g
         then (g, map_len (streamers g) = 0 \<and> map_len (launchers g) = 0)
         else (g, fin))"

fun loop :: "governor \<Rightarrow> event list \<Rightarrow> governor \<times> bool" where
  "loop g [] = (g, False)"
| "loop g (ev # evs) =
     (case iteration g ev of
        (g', True) \<Rightarrow> (g', True)
      | (g', False) \<Rightarrow> loop g' evs)"

text \<open>
  \<^verbatim>\<open>run\<close> up to the loop: fresh maps, then the first \<^verbatim>\<open>tryScaleUp\<close>. The retry
  forwarder started here is a task of its own, modelled below.
\<close>

definition runSetup :: "governor \<Rightarrow> time \<Rightarrow> governor" where
  "runSetup g now =
     (let g = g\<lparr>logged := logged g @ [Info ''Starting.'']\<rparr>;
          g = g\<lparr>streamers := [], launchers := []\<rparr>;
          g = tryScaleUp g now
      in g\<lparr>logged := logged g @ [Info ''Running.'']\<rparr>)"

fun isTick :: "event \<Rightarrow> bool" where
  "isTick (Tick now ics ocf) = True"
| "isTick ev = False"

definition shutdown :: "governor \<Rightarrow> governor" where
  "shutdown g =
     g\<lparr>logged := logged g @ [Info ''Terminating launchers and streamers.'', Info ''Stopped.''],
       closedCtl := closedCtl g @ remdups (launchers g) @ remdups (streamers g),
       doneClosed := True\<rparr>"

text \<open>
  \<^verbatim>\<open>run\<close> on the events delivered to it. Without a positive \<^verbatim>\<open>PollInterval\<close> the
  ticker channel is nil and no tick is ever selected. When the events run out before the
  loop ends, the governor is left waiting in the \<^verbatim>\<open>select\<close>.
\<close>

definition run :: "governor \<Rightarrow> time \<Rightarrow> event list \<Rightarrow> governor" where
  "run g now evs =
     (let evs = (if 0 <s PollInterval (cfg g) then evs else filter (\<lambda>ev. \<not> isTick ev) evs)
      in case loop (runSetup g now) evs of
           (g', True) \<Rightarrow> shutdown g'
         | (g', False) \<Rightarrow> g')"

section \<open>Launchers\<close>

text \<open>
  \<^verbatim>\<open>launch\<close>: \<open>w\<close> is the address of the streamer it builds, \<open>started\<close> what
  \<^verbatim>\<open>w.start(nil)\<close> returns (\<open>None\<close> for a nil error) and \<open>ctlFirst\<close> says that the
  final \<^verbatim>\<open>select\<close> took the closed control channel. The result is the launcher and
  whether it was sent on its \<^verbatim>\<open>done\<close> channel, the governor's \<^verbatim>\<open>lExits\<close>.
\<close>

definition launch :: "launcher \<Rightarrow> ptr \<Rightarrow> string option \<Rightarrow> bool \<Rightarrow> launcher \<times> bool" where
  "launch l w started ctlFirst =
     (let l = l\<lparr>err := started\<rparr>;
          l = (if err l = None then l\<lparr>worker := Some w\<rparr> else l)
      in (l, \<not> ctlFirst))"

section \<open>The retry forwarder\<close>

text \<open>
  The state of \<^verbatim>\<open>runRetryForwarder\<close>: whether \<^verbatim>\<open>g.retry\<close> was made, the local
  variables \<^verbatim>\<open>buf\<close> (the number of the current sub-buffer, \<open>None\<close> for nil) and
  \<^verbatim>\<open>cnt\<close>, and its effects: how many sub-buffers were made, the requests sent into
  each, the sub-buffers closed, and those handed to a \<^verbatim>\<open>go bufferedForwarder\<close>.
\<close>

type_synonym request = nat

record forwarder =
  retryMade :: bool
  buf :: "nat option"
  cnt :: int
  made :: nat
  sent :: "nat \<Rightarrow> request list"
  closed :: "nat list"
  goForward :: "nat list"
  fwdLogged :: "logLine list"

definition bufSize :: int where
  "bufSize = 500"

definition forwarder0 :: forwarder where
  "forwarder0 =
     \<lparr>retryMade = False, buf = None, cnt = 0, made = 0, sent = (\<lambda>b. []),
      closed = [], goForward = [], fwdLogged = []\<rparr>"

datatype fwd_event = Retry request | FwdCtl

text \<open>The case \<^verbatim>\<open>req := <-g.retry\<close>.\<close>

definition received :: "forwarder \<Rightarrow> request \<Rightarrow> forwarder" where
  "received f req =
     (let f = (if buf f = None \<or> bufSize \<le> cnt f
               then
                 let f = (case buf f of
                            Some b \<Rightarrow> f\<lparr>closed := closed f @ [b]\<rparr>
                          | None \<Rightarrow> f)
                 in f\<lparr>buf := Some (made f), made := Suc (made f),
                       goForward := goForward f @ [made f], cnt := 0\<rparr>
               else f)
      in case buf f of
           Some b \<Rightarrow> f\<lparr>sent := (sent f)(b := sent f b @ [req])\<rparr>
         | None \<Rightarrow> f)"

fun forward_loop :: "forwarder \<Rightarrow> fwd_event list \<Rightarrow> forwarder \<times> bool" where
  "forward_loop f [] = (f, False)"
| "forward_loop f (Retry req # evs) = forward_loop (received f req) evs"
| "forward_loop f (FwdCtl # evs) = (f, True)"

text \<open>
  \<^verbatim>\<open>runRetryForwarder\<close> on the events delivered to it; the flag says that it has
  returned.
\<close>

definition runRetryForwarder :: "governor \<Rightarrow> fwd_event list \<Rightarrow> forwarder \<times> bool" where
  "runRetryForwarder g evs =
     (if MaxRetries (cfg g) = 0 then (forwarder0, True)
      else
        case forward_loop (forwarder0\<lparr>retryMade := True, fwdLogged := [Info ''Running.'']\<rparr>) evs of
          (f, True) \<Rightarrow> (f\<lparr>fwdLogged := fwdLogged f @ [Info ''Stopped.'']\<rparr>, True)
        | (f, False) \<Rightarrow> (f, False))"

text \<open>
  \<^verbatim>\<open>bufferedForwarder\<close> on the outcomes of its \<^verbatim>\<open>select\<close>s: a request received
  from \<^verbatim>\<open>in\<close> (the flag says whether the inner \<^verbatim>\<open>select\<close> sent it to
  \<^verbatim>\<open>client.retry\<close>, rather than taking \<^verbatim>\<open>ctl\<close>), \<^verbatim>\<open>in\<close> found closed, or
  \<^verbatim>\<open>ctl\<close> taken. The result lists the requests sent to \<^verbatim>\<open>client.retry\<close>.
\<close>

datatype bf_event = InReq request bool | InClosed | BfCtl

fun bufferedForwarder :: "bf_event list \<Rightarrow> request list" where
  "bufferedForwarder [] = []"
| "bufferedForwarder (InReq req True # evs) = req # bufferedForwarder evs"
| "bufferedForwarder (InReq req False # evs) = []"
| "bufferedForwarder (InClosed # evs) = []"
| "bufferedForwarder (BfCtl # evs) = []"

text \<open>
  Everything that the retry path puts on \<^verbatim>\<open>client.retry\<close>: the sends of the buffered
  forwarders that were started, \<open>sched b\<close> being the outcomes seen by the one of
  sub-buffer \<open>b\<close>.
\<close>

definition clientRetry :: "forwarder \<Rightarrow> (nat \<Rightarrow> bf_event list) \<Rightarrow> request list" where
  "clientRetry f sched = concat (map (\<lambda>b. bufferedForwarder (sched b)) (goForward f))"

section \<open>The scale gate as the specification words it\<close>

text \<open>
  Section 4.5 of the specification gives the gate in eight steps over plain integers:
  return 0 when closing, when \<open>now < lastScale + SettlePeriod\<close>, or when launchers are
  in flight in blocking mode; with \<open>prov = |streamers| + |launchers|\<close> return 0 when
  \<open>prov \<ge> MaxConns\<close> (up) or \<open>prov \<le> MinConns\<close> (down); otherwise clamp the
  target that the scale policy gives into \<open>[MinConns, MaxConns]\<close> and return
  \<open>req - prov\<close>. This second definition follows those words, to be compared with
  \<open>allowedScaleDelta\<close>.
\<close>

definition clampInto :: "int \<Rightarrow> int \<Rightarrow> int \<Rightarrow> int" where
  "clampInto lo hi x = min hi (max lo x)"

definition allowedScaleDelta_spec :: "governor \<Rightarrow> time \<Rightarrow> bool \<Rightarrow> int" where
  "allowedScaleDelta_spec g now forScaleUp =
     (let prov = map_len (streamers g) + map_len (launchers g);
          lo = uint (MinConns (cfg g));
          hi = uint (MaxConns (cfg g))
      in if isClosing g then 0
         else if now < lastScale g + sint (SettlePeriod (cfg g)) then 0
         else if map_len (launchers g) \<noteq> 0 \<and> \<not> nonBlocking g then 0
         else if forScaleUp then
           (if hi \<le> int prov then 0
            else clampInto lo hi (uint (Apply (Scale (cfg g)) (of_nat prov))) - int prov)
         else
           (if int prov \<le> lo then 0
            else clampInto lo hi (uint (ApplyInverse (Scale (cfg g)) (of_nat prov))) - int prov))"

section \<open>A concrete configuration\<close>

text \<open>
  Scenario 2 of the specification with a sustain window of one polling period: between
  1 and 8 connections, exponential scaling, \<^verbatim>\<open>MinSustain\<close> and \<^verbatim>\<open>PollInterval\<close> of
  20 ms, \<^verbatim>\<open>SettlePeriod\<close> of 50 ms; and a governor made for it, all other fields at
  their zero values. \<open>clock0\<close> is a clock reading in the year 2022.
\<close>

definition exampleCfg :: ProcCfg where
  "exampleCfg =
     \<lparr>MaxRetries = 3, MinConns = 1, MaxConns = 8, Scale = Exponential,
      MinSustain = 20000000, PollInterval = 20000000, SettlePeriod = 50000000\<rparr>"

definition exampleGovernor :: governor where
  "exampleGovernor =
     \<lparr>gid = ''gov'', cfg = exampleCfg, minSust = 1, nonBlocking = False,
      inCtr = \<lparr>waits = 0, noWaits = 0\<rparr>, outCtr = \<lparr>waits = 0, noWaits = 0\<rparr>,
      streamers = [], launchers = [], nextWId = 0, lastScale = 0, isClosing = False,
      logged = [], goLaunch = [], closedCtl = [], doneClosed = False\<rparr>"

definition clock0 :: time where
  "clock0 = 63800000000000000000"

text \<open>
  The same governor during a graceful drain, with one streamer left; and with the one
  launcher of its first scale-up in flight.
\<close>

definition drainingGovernor :: governor where
  "drainingGovernor = exampleGovernor\<lparr>streamers := [7], nextWId := 1, isClosing := True\<rparr>"

definition launchingGovernor :: governor where
  "launchingGovernor = exampleGovernor\<lparr>launchers := [1], nextWId := 1\<rparr>"

text \<open>
  A run under sustained inbound pressure: the first launcher delivers streamer 1, a tick
  20 ms after the start samples inbound waits and no outbound waits, the launcher started
  by it delivers streamer 2, and a second tick follows 20 ms after the first. The five
  states are those that the governor passes through.
\<close>

definition exampleTrace :: "event list" where
  "exampleTrace =
     [LExit \<lparr>lptr = 1, lid = 0, err = None, worker = Some 1\<rparr>,
      Tick (clock0 + 20000000) 1 (\<lambda>w. 0),
      LExit \<lparr>lptr = 1, lid = 1, err = None, worker = Some 2\<rparr>,
      Tick (clock0 + 40000000) 1 (\<lambda>w. 0)]"

definition afterSetup :: governor where
  "afterSetup = exampleGovernor
     \<lparr>launchers := [1], nextWId := 1,
      logged := [Info ''Starting.'', TraceDelta 1, Info ''Running.''],
      goLaunch := [\<lparr>lptr = 1, lid = 0, err = None, worker = None\<rparr>]\<rparr>"

definition afterLaunch1 :: governor where
  "afterLaunch1 = afterSetup\<lparr>streamers := [1], launchers := []\<rparr>"

definition afterTick1 :: governor where
  "afterTick1 = afterLaunch1
     \<lparr>inCtr := \<lparr>waits = 1, noWaits = 0\<rparr>, outCtr := \<lparr>waits = 0, noWaits = 1\<rparr>,
      launchers := [1], nextWId := 2,
      logged := logged afterLaunch1 @ [TraceDelta 1],
      goLaunch := goLaunch afterLaunch1 @ [\<lparr>lptr = 1, lid = 1, err = None, worker = None\<rparr>]\<rparr>"

definition afterLaunch2 :: governor where
  "afterLaunch2 = afterTick1\<lparr>streamers := [2, 1], launchers := []\<rparr>"

definition afterTick2 :: governor where
  "afterTick2 = afterLaunch2
     \<lparr>inCtr := \<lparr>waits = 2, noWaits = 0\<rparr>, outCtr := \<lparr>waits = 0, noWaits = 2\<rparr>,
      launchers := [2, 1], nextWId := 4,
      logged := logged afterLaunch2 @ [TraceDelta 2],
      goLaunch := goLaunch afterLaunch2 @
        [\<lparr>lptr = 1, lid = 2, err = None, worker = None\<rparr>,
         \<lparr>lptr = 2, lid = 3, err = None, worker = None\<rparr>]\<rparr>"

text \<open>The same governor with retrying disabled.\<close>

definition noRetryGovernor :: governor where
  "noRetryGovernor = exampleGovernor\<lparr>cfg := exampleCfg\<lparr>MaxRetries := 0\<rparr>\<rparr>"

section \<open>Wait counters: the update rule and its invariant\<close>

lemma unat_inc_u32:
  fixes x :: u32
  assumes "unat x < 4294967295"
  shows "unat (x + 1) = unat x + 1"
  using assms unat_add_lem [of x 1] by simp

text \<open>
  C3 (amended). \<^verbatim>\<open>acc(v)\<close> increments \<^verbatim>\<open>waits\<close> and resets \<^verbatim>\<open>noWaits\<close> when
  \<open>v > 0\<close>, and increments \<^verbatim>\<open>noWaits\<close> and resets \<^verbatim>\<open>waits\<close> otherwise; when the
  field that is incremented is below the largest \<^verbatim>\<open>uint32\<close>, the increment is exact and
  exactly one of the two fields is zero afterwards.
\<close>

theorem acc_rule_and_one_zero:
  assumes "unat (if 0 < v then waits c else noWaits c) < 4294967295"
  shows "unat (waits (acc c v)) = (if 0 < v then unat (waits c) + 1 else 0) \<and>
         unat (noWaits (acc c v)) = (if 0 < v then 0 else unat (noWaits c) + 1) \<and>
         ((waits (acc c v) = 0) \<noteq> (noWaits (acc c v) = 0))"
proof (cases "0 < v")
  case True
  with assms have "unat (waits c) < 4294967295" by simp
  from unat_inc_u32 [OF this] True show ?thesis
    by (auto simp: acc_def unat_eq_0 [symmetric] simp del: unat_eq_0)
next
  case False
  with assms have "unat (noWaits c) < 4294967295" by simp
  from unat_inc_u32 [OF this] False show ?thesis
    by (auto simp: acc_def unat_eq_0 [symmetric] simp del: unat_eq_0)
qed

theorem acc_rule_and_one_zero_witness:
  "unat (waits (acc \<lparr>waits = 3, noWaits = 0\<rparr> 1)) = 4 \<and>
   unat (noWaits (acc \<lparr>waits = 3, noWaits = 0\<rparr> 1)) = 0 \<and>
   ((waits (acc \<lparr>waits = 3, noWaits = 0\<rparr> 1) = 0) \<noteq>
    (noWaits (acc \<lparr>waits = 3, noWaits = 0\<rparr> 1) = 0))"
  using acc_rule_and_one_zero [of 1 "\<lparr>waits = 3, noWaits = 0\<rparr>"] by simp

text \<open>
  At \<^verbatim>\<open>waits = 4294967295\<close> the increment wraps to zero, and both fields are zero
  after \<^verbatim>\<open>acc(1)\<close>.
\<close>

theorem acc_wraps_counterexample:
  "\<not> ((waits (acc \<lparr>waits = 4294967295, noWaits = 0\<rparr> 1) = 0) \<noteq>
      (noWaits (acc \<lparr>waits = 4294967295, noWaits = 0\<rparr> 1) = 0))"
  by (simp add: acc_def)

section \<open>The number of polling periods per sustain window\<close>

text \<open>
  For positive durations whose rounded-up quotient fits 32 bits the result is that
  quotient, and for a non-positive duration it is the largest \<^verbatim>\<open>uint32\<close>. The
  example governor holds the value computed from its configuration.
\<close>

lemma sint_word_of_int_small:
  assumes "0 \<le> x" "x < 2 ^ 63"
  shows "sint (word_of_int x :: duration) = x"
  using assms int_word_sint [where 'a = 64, of x] by simp

lemma example_minSust: "minSustainPollPeriods (cfg exampleGovernor) = minSust exampleGovernor"
  by (simp add: minSustainPollPeriods_def exampleGovernor_def exampleCfg_def duration_div_def
      duration_rem_def word_sle_eq word_sless_alt Let_def signed_divide_int_def
      signed_modulo_int_def)

lemma minSustainPollPeriods_saturates:
  assumes "sint (MinSustain c) \<le> 0 \<or> sint (PollInterval c) \<le> 0"
  shows "minSustainPollPeriods c = 4294967295"
  using assms by (auto simp: minSustainPollPeriods_def word_sle_eq)

lemma minSustainPollPeriods_ceiling:
  fixes c :: ProcCfg
  defines "a \<equiv> sint (MinSustain c)" and "b \<equiv> sint (PollInterval c)"
  assumes pos: "0 < a" "0 < b" and small: "(a + b - 1) div b < 2 ^ 32"
  shows "uint (minSustainPollPeriods c) = (a + b - 1) div b"
proof -
  define q where "q = a div b"
  define r where "r = a mod b"
  have b63: "b < 2 ^ 63" unfolding b_def using sint_lt [of "PollInterval c"] by simp
  have q0: "0 \<le> q" unfolding q_def using pos by (simp add: pos_imp_zdiv_nonneg_iff)
  have r0: "0 \<le> r" "r < b" unfolding r_def using pos by simp_all
  have sd: "a sdiv b = q" "a smod b = r"
    using pos by (simp_all add: signed_divide_int_def signed_modulo_int_def q_def r_def sgn_if)
  have split: "(s + b * k) div b = k" if "0 \<le> s" "s < b" for s k
  proof -
    have "b \<noteq> 0" using pos by simp
    then have "(s + b * k) div b = k + s div b" by (rule div_mult_self2)
    also have "s div b = 0" using that by (rule div_pos_pos_trivial)
    finally show ?thesis by simp
  qed
  have e: "a = r + b * q" unfolding q_def r_def by simp
  have ceil: "(a + b - 1) div b = (if 0 < r then q + 1 else q)"
  proof (cases "0 < r")
    case True
    have h1: "a + b - 1 = (r - 1) + b * (q + 1)" using e by (simp add: algebra_simps)
    have h2: "((r - 1) + b * (q + 1)) div b = q + 1"
      using True r0 by (intro split) simp_all
    show ?thesis by (simp only: h1 h2 True if_True)
  next
    case False
    with r0 have z: "r = 0" by simp
    have h1: "a + b - 1 = (b - 1) + b * q" using e z by simp
    have h2: "((b - 1) + b * q) div b = q"
      using pos by (intro split) simp_all
    show ?thesis by (simp only: h1 h2 False if_False)
  qed
  define res where "res = (if 0 < r then q + 1 else q)"
  have res: "0 \<le> res" "res < 2 ^ 32" using q0 small ceil by (simp_all add: res_def)
  have dq: "duration_div (MinSustain c) (PollInterval c) = word_of_int q"
    by (simp add: duration_div_def a_def [symmetric] b_def [symmetric] sd)
  have dr: "sint (duration_rem (MinSustain c) (PollInterval c)) = r"
    unfolding duration_rem_def a_def [symmetric] b_def [symmetric] sd
    using r0 b63 by (intro sint_word_of_int_small) simp_all
  have w: "(if 0 < r then word_of_int q + 1 else word_of_int q) = (word_of_int res :: duration)"
    by (simp add: res_def)
  have "minSustainPollPeriods c = ucast (word_of_int res :: duration)"
    using pos w
    by (simp add: minSustainPollPeriods_def word_sle_eq word_sless_alt Let_def dq dr
        a_def [symmetric] b_def [symmetric])
  also have "uint \<dots> = res"
    using res by (simp add: unsigned_ucast_eq uint_word_of_int take_bit_eq_mod)
  finally show ?thesis by (simp add: ceil res_def)
qed

text \<open>
  C4. With \<^verbatim>\<open>MinSustain\<close> of 4294967296 ns and \<^verbatim>\<open>PollInterval\<close> of 1 ns the
  quotient is \<open>2 ^ 32\<close>, and the conversion to \<^verbatim>\<open>uint32\<close> returns 0 instead of the
  number of periods.
\<close>

theorem minSustainPollPeriods_truncates:
  "minSustainPollPeriods \<lparr>MaxRetries = 0, MinConns = 1, MaxConns = 1, Scale = Constant,
      MinSustain = 4294967296, PollInterval = 1, SettlePeriod = 0\<rparr> = 0"
  by (simp add: minSustainPollPeriods_def duration_div_def duration_rem_def word_sle_eq
      word_sless_alt Let_def signed_divide_int_def signed_modulo_int_def)

section \<open>The scaling decision\<close>

text \<open>
  C2. After the two counters are updated with the samples,
  \<^verbatim>\<open>updateCountersAndEvalScaling\<close> returns 1 exactly when \<^verbatim>\<open>inCtr.waits\<close> and
  \<^verbatim>\<open>outCtr.noWaits\<close> have both reached \<^verbatim>\<open>minSust\<close>, \<open>-1\<close> exactly when
  \<^verbatim>\<open>inCtr.noWaits\<close> has reached it and the first condition fails, and 0 exactly in the
  remaining case.
\<close>

theorem updateCountersAndEvalScaling_decision:
  "(case updateCountersAndEvalScaling g ics ocf of
      (g', s) \<Rightarrow>
        inCtr g' = acc (inCtr g) ics \<and>
        outCtr g' = acc (outCtr g) (fold (\<lambda>w s. s + ocf w) (remdups (streamers g)) 0) \<and>
        minSust g' = minSust g \<and>
        (s = 1 \<longleftrightarrow> minSust g' \<le> waits (inCtr g') \<and> minSust g' \<le> noWaits (outCtr g')) \<and>
        (s = - 1 \<longleftrightarrow> minSust g' \<le> noWaits (inCtr g') \<and>
           \<not> (minSust g' \<le> waits (inCtr g') \<and> minSust g' \<le> noWaits (outCtr g'))) \<and>
        (s = 0 \<longleftrightarrow> \<not> (minSust g' \<le> waits (inCtr g') \<and> minSust g' \<le> noWaits (outCtr g')) \<and>
           \<not> minSust g' \<le> noWaits (inCtr g')))"
  by (simp add: updateCountersAndEvalScaling_def Let_def)

section \<open>The scale gate\<close>

text \<open>
  With \<open>lo \<le> hi\<close>, \<open>clampInto\<close> is the projection onto the interval: the result lies
  in it, and a value already inside is returned unchanged.
\<close>

lemma clampInto_range:
  assumes "lo \<le> hi"
  shows "lo \<le> clampInto lo hi x" "clampInto lo hi x \<le> hi"
    "lo \<le> x \<Longrightarrow> x \<le> hi \<Longrightarrow> clampInto lo hi x = x"
  using assms by (simp_all add: clampInto_def)

lemma uint_clamp:
  fixes lo hi r :: u32
  shows "uint (if hi < (if r < lo then lo else r) then hi else (if r < lo then lo else r)) =
         clampInto (uint lo) (uint hi) (uint r)"
  by (simp add: clampInto_def word_less_def min_def max_def)

lemma uint_prov:
  assumes "n < 2 ^ 32"
  shows "uint (of_nat n :: u32) = int n"
  using assms by (simp add: uint_nat unat_of_nat)

text \<open>
  C1. \<^verbatim>\<open>allowedScaleDelta\<close> computes the delta of the specification's eight steps,
  for every governor state whose two maps hold fewer than \<open>2 ^ 32\<close> entries together
  (so that \<^verbatim>\<open>uint32(len(g.streamers) + len(g.launchers))\<close> is the number of entries).
\<close>

theorem allowedScaleDelta_refines:
  assumes "map_len (streamers g) + map_len (launchers g) < 2 ^ 32"
  shows "allowedScaleDelta g now forScaleUp = allowedScaleDelta_spec g now forScaleUp"
proof -
  define n where "n = map_len (streamers g) + map_len (launchers g)"
  define k where "k = map_len (launchers g)"
  define P :: u32 where "P = of_nat (map_len (streamers g) + map_len (launchers g))"
  have p: "uint P = int n"
    unfolding P_def n_def using assms by (rule uint_prov)
  have "allowedScaleDelta g now forScaleUp =
     (if isClosing g then 0
      else if now < lastScale g + sint (SettlePeriod (cfg g)) then 0
      else if \<not> nonBlocking g \<and> 0 < k then 0
      else if forScaleUp then
        (if MaxConns (cfg g) \<le> P then 0
         else clampInto (uint (MinConns (cfg g))) (uint (MaxConns (cfg g)))
                (uint (Apply (Scale (cfg g)) P)) - uint P)
      else
        (if P \<le> MinConns (cfg g) then 0
         else clampInto (uint (MinConns (cfg g))) (uint (MaxConns (cfg g)))
                (uint (ApplyInverse (Scale (cfg g)) P)) - uint P))"
    unfolding allowedScaleDelta_def P_def [symmetric]
    unfolding k_def [symmetric]
    by (simp add: Let_def time_After_def time_Add_def uint_clamp)
  also have "\<dots> = allowedScaleDelta_spec g now forScaleUp"
    unfolding allowedScaleDelta_spec_def P_def [symmetric]
    unfolding n_def [symmetric]
    unfolding k_def [symmetric]
    by (simp add: Let_def word_le_def p P_def [folded n_def, symmetric])
  finally show ?thesis .
qed

theorem allowedScaleDelta_refines_witness:
  "map_len (streamers (exampleGovernor\<lparr>streamers := [1, 2, 3]\<rparr>)) +
     map_len (launchers (exampleGovernor\<lparr>streamers := [1, 2, 3]\<rparr>)) < 2 ^ 32 \<and>
   allowedScaleDelta (exampleGovernor\<lparr>streamers := [1, 2, 3]\<rparr>) clock0 True = 3 \<and>
   allowedScaleDelta_spec (exampleGovernor\<lparr>streamers := [1, 2, 3]\<rparr>) clock0 True = 3"
  using allowedScaleDelta_refines [of "exampleGovernor\<lparr>streamers := [1, 2, 3]\<rparr>" clock0 True]
  by (simp add: exampleGovernor_def exampleCfg_def clock0_def allowedScaleDelta_spec_def
      map_len_def Exponential_def clampInto_def)

section \<open>Launching streamers\<close>

lemma fold_max_ge_init: "a \<le> fold max ks (a :: nat)"
proof (induction ks arbitrary: a)
  case Nil
  show ?case by simp
next
  case (Cons k ks)
  have "a \<le> max k a" by simp
  also have "\<dots> \<le> fold max ks (max k a)" by (rule Cons.IH)
  finally show ?case by simp
qed

lemma fold_max_ge_elem: "x \<in> set ks \<Longrightarrow> x \<le> fold max ks (a :: nat)"
proof (induction ks arbitrary: a)
  case Nil
  then show ?case by simp
next
  case (Cons k ks)
  show ?case
  proof (cases "x = k")
    case True
    have "x \<le> max k a" using True by simp
    also have "\<dots> \<le> fold max ks (max k a)" by (rule fold_max_ge_init)
    finally show ?thesis by simp
  next
    case False
    with Cons.prems have "x \<in> set ks" by simp
    from Cons.IH [OF this] show ?thesis by simp
  qed
qed

lemma new_ptr_fresh: "new_ptr ks \<notin> set ks"
proof
  assume "new_ptr ks \<in> set ks"
  then have "new_ptr ks \<le> fold max ks 0" by (rule fold_max_ge_elem)
  then show False by (simp add: new_ptr_def)
qed

lemma map_put_new_ptr: "map_put (new_ptr ks) ks = new_ptr ks # ks"
  by (simp add: map_put_def new_ptr_fresh)

lemma map_len_new_ptr: "map_len (new_ptr ks # ks) = Suc (map_len ks)"
  by (simp add: map_len_def new_ptr_fresh)

lemma launchStreamer_fields:
  "launchers (launchStreamer g) = new_ptr (launchers g) # launchers g"
  "streamers (launchStreamer g) = streamers g"
  "isClosing (launchStreamer g) = isClosing g"
  "cfg (launchStreamer g) = cfg g"
  "lastScale (launchStreamer g) = lastScale g"
  "nextWId (launchStreamer g) = nextWId g + 1"
  "logged (launchStreamer g) = logged g"
  "goLaunch (launchStreamer g) =
     goLaunch g @ [\<lparr>lptr = new_ptr (launchers g), lid = nextWId g, err = None, worker = None\<rparr>]"
  by (simp_all add: launchStreamer_def Let_def map_put_new_ptr)

lemma launchLoop_fields:
  "map_len (launchers (launchLoop n g)) = map_len (launchers g) + n"
  "streamers (launchLoop n g) = streamers g"
  "length (goLaunch (launchLoop n g)) = length (goLaunch g) + n"
  "lastScale (launchLoop n g) = lastScale g"
  "isClosing (launchLoop n g) = isClosing g"
  "cfg (launchLoop n g) = cfg g"
  by (induction n arbitrary: g) (simp_all add: launchStreamer_fields map_len_new_ptr)

lemma first_delta:
  assumes "1 \<le> MinConns (cfg g)" "MinConns (cfg g) \<le> MaxConns (cfg g)"
    "\<not> isClosing g" "lastScale g = 0" "sint (SettlePeriod (cfg g)) \<le> now"
    "streamers g = []" "launchers g = []"
  shows "uint (MinConns (cfg g)) \<le> allowedScaleDelta g now True \<and>
         allowedScaleDelta g now True \<le> uint (MaxConns (cfg g))"
proof -
  have m: "\<not> MaxConns (cfg g) \<le> 0" using assms(1,2)
    by (metis word_le_0_iff order.trans one_neq_zero)
  show ?thesis using assms m
    by (auto simp: allowedScaleDelta_def time_After_def time_Add_def map_len_def Let_def
        word_le_def word_less_def)
qed

text \<open>
  C9. With \<open>1 \<le> MinConns \<le> MaxConns\<close>, \<^verbatim>\<open>isClosing\<close> false and a zero
  \<^verbatim>\<open>lastScale\<close>, the first \<^verbatim>\<open>tryScaleUp\<close> of \<^verbatim>\<open>run\<close>, issued on the fresh maps,
  creates at least \<^verbatim>\<open>MinConns\<close> and at most \<^verbatim>\<open>MaxConns\<close> launchers (one task
  each), so that the provisioned pool holds at least \<^verbatim>\<open>MinConns\<close>. The clock is taken
  to read no earlier than \<^verbatim>\<open>SettlePeriod\<close> after Go's zero time, as every reading
  since the year 293 does; no property of the scale policy is needed.
\<close>

theorem initial_tryScaleUp_reaches_MinConns:
  assumes "1 \<le> MinConns (cfg g)" "MinConns (cfg g) \<le> MaxConns (cfg g)"
    "\<not> isClosing g" "lastScale g = 0" "sint (SettlePeriod (cfg g)) \<le> now"
  shows "streamers (runSetup g now) = [] \<and>
         unat (MinConns (cfg g)) \<le> map_len (launchers (runSetup g now)) \<and>
         map_len (launchers (runSetup g now)) \<le> unat (MaxConns (cfg g)) \<and>
         unat (MinConns (cfg g)) \<le>
           map_len (streamers (runSetup g now)) + map_len (launchers (runSetup g now)) \<and>
         length (goLaunch (runSetup g now)) =
           length (goLaunch g) + map_len (launchers (runSetup g now))"
proof -
  define g0 where "g0 = g\<lparr>logged := logged g @ [Info ''Starting.''], streamers := [], launchers := []\<rparr>"
  define d where "d = allowedScaleDelta g0 now True"
  have d: "uint (MinConns (cfg g)) \<le> d \<and> d \<le> uint (MaxConns (cfg g))"
    unfolding d_def using first_delta [of g0 now] assms by (simp add: g0_def)
  have one: "1 \<le> uint (MinConns (cfg g))" using assms(1) by (simp add: word_le_def)
  have s1: "runSetup g now =
      (tryScaleUp g0 now)\<lparr>logged := logged (tryScaleUp g0 now) @ [Info ''Running.'']\<rparr>"
    by (simp add: runSetup_def Let_def g0_def)
  have s2: "tryScaleUp g0 now = launchLoop (nat d) (g0\<lparr>logged := logged g0 @ [TraceDelta d]\<rparr>)"
    using d one by (simp add: tryScaleUp_def Let_def d_def [symmetric])
  have n: "unat (MinConns (cfg g)) \<le> nat d \<and> nat d \<le> unat (MaxConns (cfg g))"
    using d one uint_nat [of "MinConns (cfg g)"] uint_nat [of "MaxConns (cfg g)"] by linarith
  define g1 where "g1 = g0\<lparr>logged := logged g0 @ [TraceDelta d]\<rparr>"
  have e: "map_len (launchers g1) = 0" "streamers g1 = []" "goLaunch g1 = goLaunch g"
    by (simp_all add: g1_def g0_def map_len_def)
  have l: "map_len (launchers (launchLoop (nat d) g1)) = nat d"
    "streamers (launchLoop (nat d) g1) = []"
    "length (goLaunch (launchLoop (nat d) g1)) = length (goLaunch g) + nat d"
    by (simp_all add: launchLoop_fields e)
  have "map_len (launchers (runSetup g now)) = nat d" "streamers (runSetup g now) = []"
    "length (goLaunch (runSetup g now)) = length (goLaunch g) + nat d"
    unfolding s1 s2 g1_def [symmetric] by (simp_all add: l)
  with n show ?thesis by (simp add: map_len_def)
qed

theorem initial_tryScaleUp_reaches_MinConns_witness:
  "1 \<le> MinConns (cfg exampleGovernor) \<and>
   MinConns (cfg exampleGovernor) \<le> MaxConns (cfg exampleGovernor) \<and>
   \<not> isClosing exampleGovernor \<and> lastScale exampleGovernor = 0 \<and>
   sint (SettlePeriod (cfg exampleGovernor)) \<le> clock0 \<and>
   streamers (runSetup exampleGovernor clock0) = [] \<and>
   unat (MinConns (cfg exampleGovernor)) \<le> map_len (launchers (runSetup exampleGovernor clock0)) \<and>
   map_len (launchers (runSetup exampleGovernor clock0)) \<le> unat (MaxConns (cfg exampleGovernor))"
proof -
  have h: "1 \<le> MinConns (cfg exampleGovernor)"
    "MinConns (cfg exampleGovernor) \<le> MaxConns (cfg exampleGovernor)"
    "\<not> isClosing exampleGovernor" "lastScale exampleGovernor = 0"
    "sint (SettlePeriod (cfg exampleGovernor)) \<le> clock0"
    by (simp_all add: exampleGovernor_def exampleCfg_def clock0_def)
  from initial_tryScaleUp_reaches_MinConns [OF h] h show ?thesis by simp
qed

section \<open>Streamer exits\<close>

text \<open>
  C10. When a streamer exits with \<^verbatim>\<open>didQuit\<close> set, the governor starts one new
  launcher and adds it to its launcher map, whatever \<^verbatim>\<open>isClosing\<close> is; the launcher
  map is then not empty, and the loop does not end in that iteration.
\<close>

theorem didQuit_relaunches_unconditionally:
  assumes "didQuit w"
  shows "(case iteration g (WExit w) of
      (g', fin) \<Rightarrow>
        new_ptr (launchers g) \<notin> set (launchers g) \<and>
        launchers g' = new_ptr (launchers g) # launchers g \<and>
        map_len (launchers g') = Suc (map_len (launchers g)) \<and>
        goLaunch g' = goLaunch g @
          [\<lparr>lptr = new_ptr (launchers g), lid = nextWId g, err = None, worker = None\<rparr>] \<and>
        nextWId g' = nextWId g + 1 \<and>
        streamers g' = map_delete (sptr w) (streamers g) \<and>
        isClosing g' = (isClosing g \<or> inClosed w) \<and>
        \<not> fin)"
  using assms
  by (auto simp: iteration_def Let_def launchStreamer_fields new_ptr_fresh map_len_new_ptr)

text \<open>
  During a drain the exit of the last streamer ends the loop, unless the streamer had
  quit: then a launcher is started and the loop goes on.
\<close>

theorem didQuit_relaunches_unconditionally_witness:
  "didQuit \<lparr>sptr = 7, inClosed = False, didQuit = True\<rparr> \<and>
   isClosing drainingGovernor \<and>
   iteration drainingGovernor (WExit \<lparr>sptr = 7, inClosed = False, didQuit = True\<rparr>) =
     (drainingGovernor\<lparr>streamers := [], launchers := [1], nextWId := 2,
        goLaunch := [\<lparr>lptr = 1, lid = 1, err = None, worker = None\<rparr>]\<rparr>, False) \<and>
   iteration drainingGovernor (WExit \<lparr>sptr = 7, inClosed = False, didQuit = False\<rparr>) =
     (drainingGovernor\<lparr>streamers := []\<rparr>, True)"
  using didQuit_relaunches_unconditionally
    [of "\<lparr>sptr = 7, inClosed = False, didQuit = True\<rparr>" drainingGovernor]
  by (simp add: iteration_def launchStreamer_def drainingGovernor_def exampleGovernor_def
      map_delete_def map_put_def map_len_def new_ptr_def Let_def)

section \<open>Launcher exits\<close>

text \<open>
  C8. When \<^verbatim>\<open>start\<close> fails in a launcher (created, as always, with no streamer), the
  launcher holds the error and no streamer, and it is sent on the exit channel unless its
  control channel is taken first. On receiving it the governor removes the launcher from
  its map, logs the error, registers no streamer and starts no launcher; the loop goes
  on, ending only when a drain is complete.
\<close>

theorem failed_launch_is_logged_and_dropped:
  assumes "worker l = None"
  shows "(case launch l w (Some e) ctlFirst of
      (l', posted) \<Rightarrow>
        err l' = Some e \<and> worker l' = None \<and> lptr l' = lptr l \<and> posted = (\<not> ctlFirst) \<and>
        (case iteration g (LExit l') of
           (g', fin) \<Rightarrow>
             launchers g' = map_delete (lptr l) (launchers g) \<and>
             lptr l \<notin> set (launchers g') \<and>
             streamers g' = streamers g \<and>
             logged g' = logged g @ [WarnStartErr e] \<and>
             goLaunch g' = goLaunch g \<and>
             nextWId g' = nextWId g \<and>
             isClosing g' = isClosing g \<and>
             fin = (isClosing g \<and> map_len (streamers g') = 0 \<and> map_len (launchers g') = 0)))"
  using assms by (simp add: launch_def iteration_def Let_def map_delete_def)

theorem failed_launch_is_logged_and_dropped_witness:
  "worker \<lparr>lptr = 1, lid = 0, err = None, worker = None\<rparr> = None \<and>
   launch \<lparr>lptr = 1, lid = 0, err = None, worker = None\<rparr> 5 (Some ''handshake failed'') False =
     (\<lparr>lptr = 1, lid = 0, err = Some ''handshake failed'', worker = None\<rparr>, True) \<and>
   iteration launchingGovernor
       (LExit \<lparr>lptr = 1, lid = 0, err = Some ''handshake failed'', worker = None\<rparr>) =
     (launchingGovernor\<lparr>launchers := [], logged := [WarnStartErr ''handshake failed'']\<rparr>, False)"
  using failed_launch_is_logged_and_dropped
    [where l = "\<lparr>lptr = 1, lid = 0, err = None, worker = None\<rparr>" and w = 5
      and e = "''handshake failed''" and ctlFirst = False and g = launchingGovernor]
  by (simp add: launch_def iteration_def launchingGovernor_def exampleGovernor_def
      map_delete_def Let_def)

section \<open>The settle period\<close>

text \<open>No function of the event loop assigns \<^verbatim>\<open>lastScale\<close>.\<close>

lemma launchStreamer_lastScale: "lastScale (launchStreamer g) = lastScale g"
  by (simp add: launchStreamer_def Let_def)

lemma launchLoop_lastScale: "lastScale (launchLoop n g) = lastScale g"
  by (induction n arbitrary: g) (simp_all add: launchStreamer_lastScale)

lemma tryScaleUp_lastScale: "lastScale (tryScaleUp g now) = lastScale g"
  by (simp add: tryScaleUp_def Let_def launchLoop_lastScale)

lemma updateCounters_lastScale:
  "lastScale (fst (updateCountersAndEvalScaling g ics ocf)) = lastScale g"
  by (simp add: updateCountersAndEvalScaling_def Let_def)

lemma selected_lastScale: "lastScale (fst (selected g ev)) = lastScale g"
proof (cases ev)
  case (LExit l)
  then show ?thesis by (simp add: Let_def split: option.splits)
next
  case (WExit w)
  then show ?thesis by (simp add: Let_def launchStreamer_lastScale)
next
  case (Tick now ics ocf)
  obtain g' s where u: "updateCountersAndEvalScaling g ics ocf = (g', s)"
    by (cases "updateCountersAndEvalScaling g ics ocf")
  with updateCounters_lastScale [of g ics ocf] have "lastScale g' = lastScale g" by simp
  with Tick u show ?thesis by (simp add: tryScaleUp_lastScale tryWindDown_def)
next
  case Ctl
  then show ?thesis by simp
qed

lemma iteration_lastScale: "lastScale (fst (iteration g ev)) = lastScale g"
proof -
  obtain g' d where s: "selected g ev = (g', d)" by (cases "selected g ev")
  with selected_lastScale [of g ev] have "lastScale g' = lastScale g" by simp
  with s show ?thesis by (simp add: iteration_def)
qed

lemma loop_lastScale: "lastScale (fst (loop g evs)) = lastScale g"
proof (induction evs arbitrary: g)
  case Nil
  show ?case by simp
next
  case (Cons ev evs)
  obtain g' d where i: "iteration g ev = (g', d)" by (cases "iteration g ev")
  with iteration_lastScale [of g ev] have "lastScale g' = lastScale g" by simp
  with i Cons.IH [of g'] show ?case by (cases d) simp_all
qed

lemma run_lastScale: "lastScale (run g now evs) = lastScale g"
proof -
  define evs' where
    "evs' = (if 0 <s PollInterval (cfg g) then evs else filter (\<lambda>ev. \<not> isTick ev) evs)"
  have s: "lastScale (runSetup g now) = lastScale g"
    by (simp add: runSetup_def Let_def tryScaleUp_lastScale)
  obtain g' d where l: "loop (runSetup g now) evs' = (g', d)"
    by (cases "loop (runSetup g now) evs'")
  with loop_lastScale [of "runSetup g now" evs'] s have "lastScale g' = lastScale g" by simp
  moreover have "run g now evs = (if d then shutdown g' else g')"
    using l by (cases d) (simp_all add: run_def evs'_def)
  ultimately show ?thesis by (simp add: shutdown_def)
qed

lemma launchLoop_numeral:
  "launchLoop (numeral k) g = launchLoop (pred_numeral k) (launchStreamer g)"
  by (simp add: numeral_eq_Suc)

lemma step0: "runSetup exampleGovernor clock0 = afterSetup"
  by (simp add: runSetup_def tryScaleUp_def allowedScaleDelta_def exampleGovernor_def
      exampleCfg_def clock0_def Exponential_def launchStreamer_def map_len_def map_put_def
      new_ptr_def time_After_def time_Add_def Let_def afterSetup_def)

lemma step1:
  "iteration afterSetup (LExit \<lparr>lptr = 1, lid = 0, err = None, worker = Some 1\<rparr>) =
     (afterLaunch1, False)"
  by (simp add: iteration_def afterLaunch1_def afterSetup_def exampleGovernor_def
      map_delete_def map_put_def Let_def)

lemma step2:
  "iteration afterLaunch1 (Tick (clock0 + 20000000) 1 (\<lambda>w. 0)) = (afterTick1, False)"
  by (simp add: iteration_def updateCountersAndEvalScaling_def acc_def tryScaleUp_def
      allowedScaleDelta_def afterTick1_def afterLaunch1_def afterSetup_def exampleGovernor_def
      exampleCfg_def clock0_def Exponential_def launchStreamer_def map_len_def map_put_def
      new_ptr_def time_After_def time_Add_def Let_def word_le_nat_alt word_less_nat_alt)

lemma step3:
  "iteration afterTick1 (LExit \<lparr>lptr = 1, lid = 1, err = None, worker = Some 2\<rparr>) =
     (afterLaunch2, False)"
  by (simp add: iteration_def afterLaunch2_def afterTick1_def afterLaunch1_def afterSetup_def
      exampleGovernor_def map_delete_def map_put_def Let_def)

lemma step4:
  "iteration afterLaunch2 (Tick (clock0 + 40000000) 1 (\<lambda>w. 0)) = (afterTick2, False)"
  by (simp add: iteration_def updateCountersAndEvalScaling_def acc_def tryScaleUp_def
      allowedScaleDelta_def afterTick2_def afterLaunch2_def afterTick1_def afterLaunch1_def
      afterSetup_def exampleGovernor_def
      exampleCfg_def clock0_def Exponential_def launchStreamer_def map_len_def map_put_def
      new_ptr_def time_After_def time_Add_def Let_def launchLoop_numeral word_le_nat_alt word_less_nat_alt)

lemma example_ticker: "0 <s PollInterval (cfg exampleGovernor)"
  by (simp add: exampleGovernor_def exampleCfg_def word_sless_alt)

lemma example_counts:
  "sint (SettlePeriod (cfg exampleGovernor)) = 50000000"
  "length (goLaunch afterSetup) = 1" "length (goLaunch afterLaunch1) = 1"
  "length (goLaunch afterTick1) = 2" "length (goLaunch afterLaunch2) = 2"
  "length (goLaunch afterTick2) = 4" "lastScale afterTick2 = 0"
  by (simp_all add: afterTick2_def afterLaunch2_def afterTick1_def afterLaunch1_def
      afterSetup_def exampleGovernor_def exampleCfg_def)

text \<open>
  C6. In the run \<open>exampleTrace\<close> the settle period is 50 ms. The tick at 20 ms scales
  the pool from 1 to 2 (one launcher started) and the tick at 40 ms from 2 to 4 (two
  launchers started): two scaling actions 20 ms apart, and 20 ms and 40 ms after the
  first scale-up of the setup. \<^verbatim>\<open>lastScale\<close> still holds the zero time at the end.
\<close>

theorem scale_ups_within_SettlePeriod:
  "sint (SettlePeriod (cfg exampleGovernor)) = 50000000 \<and>
   run exampleGovernor clock0 (take 1 exampleTrace) = afterLaunch1 \<and>
   run exampleGovernor clock0 (take 2 exampleTrace) = afterTick1 \<and>
   run exampleGovernor clock0 (take 3 exampleTrace) = afterLaunch2 \<and>
   run exampleGovernor clock0 (take 4 exampleTrace) = afterTick2 \<and>
   length (goLaunch afterLaunch1) = 1 \<and> length (goLaunch afterTick1) = 2 \<and>
   length (goLaunch afterLaunch2) = 2 \<and> length (goLaunch afterTick2) = 4 \<and>
   lastScale afterTick2 = 0"
proof -
  have t:
    "take 1 exampleTrace = [LExit \<lparr>lptr = 1, lid = 0, err = None, worker = Some 1\<rparr>]"
    "take 2 exampleTrace =
       [LExit \<lparr>lptr = 1, lid = 0, err = None, worker = Some 1\<rparr>,
        Tick (clock0 + 20000000) 1 (\<lambda>w. 0)]"
    "take 3 exampleTrace =
       [LExit \<lparr>lptr = 1, lid = 0, err = None, worker = Some 1\<rparr>,
        Tick (clock0 + 20000000) 1 (\<lambda>w. 0),
        LExit \<lparr>lptr = 1, lid = 1, err = None, worker = Some 2\<rparr>]"
    "take 4 exampleTrace =
       [LExit \<lparr>lptr = 1, lid = 0, err = None, worker = Some 1\<rparr>,
        Tick (clock0 + 20000000) 1 (\<lambda>w. 0),
        LExit \<lparr>lptr = 1, lid = 1, err = None, worker = Some 2\<rparr>,
        Tick (clock0 + 40000000) 1 (\<lambda>w. 0)]"
    by (simp_all add: exampleTrace_def numeral_eq_Suc)
  have r: "run exampleGovernor clock0 evs =
      (case loop afterSetup evs of (g', True) \<Rightarrow> shutdown g' | (g', False) \<Rightarrow> g')" for evs
    by (simp only: run_def example_ticker step0 if_True Let_def)
  show ?thesis
    by (simp only: t r loop.simps step1 step2 step3 step4 prod.case bool.case example_counts
        simp_thms)
qed

section \<open>The retry forwarder: sub-buffers\<close>

text \<open>
  \<^verbatim>\<open>cnt\<close> is never incremented, so once a sub-buffer exists the test
  \<^verbatim>\<open>cnt >= bufSize\<close> fails and every request goes into that sub-buffer.
\<close>

lemma received_keeps_buffer:
  assumes "buf f = Some b" "cnt f < bufSize"
  shows "received f req = f\<lparr>sent := (sent f)(b := sent f b @ [req])\<rparr>"
  using assms by (simp add: received_def)

lemma forward_loop_keeps_buffer:
  assumes "buf f = Some b" "cnt f < bufSize"
  shows "forward_loop f (map Retry reqs) = (f\<lparr>sent := (sent f)(b := sent f b @ reqs)\<rparr>, False)"
  using assms
proof (induction reqs arbitrary: f)
  case Nil
  then show ?case by simp
next
  case (Cons req reqs)
  let ?f = "f\<lparr>sent := (sent f)(b := sent f b @ [req])\<rparr>"
  have "forward_loop f (map Retry (req # reqs)) = forward_loop ?f (map Retry reqs)"
    using Cons.prems by (simp add: received_keeps_buffer)
  also have "\<dots> = (?f\<lparr>sent := (sent ?f)(b := sent ?f b @ reqs)\<rparr>, False)"
    using Cons.prems by (intro Cons.IH) simp_all
  also have "\<dots> = (f\<lparr>sent := (sent f)(b := sent f b @ req # reqs)\<rparr>, False)"
    by simp
  finally show ?case .
qed

lemma received_first:
  "received (forwarder0\<lparr>retryMade := True, fwdLogged := [Info ''Running.'']\<rparr>) req =
     forwarder0\<lparr>retryMade := True, fwdLogged := [Info ''Running.''], buf := Some 0,
       made := 1, goForward := [0], sent := (\<lambda>b. [])(0 := [req])\<rparr>"
  by (simp add: received_def forwarder0_def bufSize_def)

lemma runRetryForwarder_one_buffer:
  assumes "MaxRetries (cfg g) \<noteq> 0"
  shows "runRetryForwarder g (map Retry (req # reqs)) =
     (forwarder0\<lparr>retryMade := True, fwdLogged := [Info ''Running.''], buf := Some 0,
        made := 1, goForward := [0], sent := (\<lambda>b. [])(0 := req # reqs)\<rparr>, False)"
proof -
  let ?f = "forwarder0\<lparr>retryMade := True, fwdLogged := [Info ''Running.''], buf := Some 0,
       made := 1, goForward := [0], sent := (\<lambda>b. [])(0 := [req])\<rparr>"
  have "forward_loop ?f (map Retry reqs) = (?f\<lparr>sent := (sent ?f)(0 := sent ?f 0 @ reqs)\<rparr>, False)"
    by (rule forward_loop_keeps_buffer) (simp_all add: forwarder0_def bufSize_def)
  then show ?thesis using assms
    by (simp add: runRetryForwarder_def received_first)
qed

text \<open>
  C5. With retrying enabled, 501 requests received on the retry channel leave one
  sub-buffer made and one buffered forwarder started, nothing closed, and all 501
  requests sent into that one sub-buffer: the 501st request causes no new sub-buffer.
\<close>

theorem sub_buffer_never_rotated:
  "(case runRetryForwarder exampleGovernor (replicate 501 (Retry 7)) of
      (f, returned) \<Rightarrow>
        made f = 1 \<and> goForward f = [0] \<and> closed f = [] \<and> buf f = Some 0 \<and> cnt f = 0 \<and>
        length (sent f 0) = 501)"
proof -
  have m: "MaxRetries (cfg exampleGovernor) \<noteq> 0"
    by (simp add: exampleGovernor_def exampleCfg_def)
  have r: "replicate 501 (Retry 7) = map Retry (7 # replicate 500 7)"
    by (simp add: numeral_eq_Suc)
  have "runRetryForwarder exampleGovernor (replicate 501 (Retry 7)) =
     (forwarder0\<lparr>retryMade := True, fwdLogged := [Info ''Running.''], buf := Some 0,
        made := 1, goForward := [0], sent := (\<lambda>b. [])(0 := 7 # replicate 500 7)\<rparr>, False)"
    unfolding r by (rule runRetryForwarder_one_buffer [OF m])
  then show ?thesis by (simp add: forwarder0_def)
qed

text \<open>
  C7. With \<^verbatim>\<open>MaxRetries = 0\<close>, \<^verbatim>\<open>runRetryForwarder\<close> returns at once whatever
  events are pending: the retry channel is not made, no sub-buffer is made, no buffered
  forwarder is started, and so the retry path sends nothing to \<^verbatim>\<open>client.retry\<close>.
\<close>

theorem retry_path_disabled:
  assumes "MaxRetries (cfg g) = 0"
  shows "(case runRetryForwarder g evs of
      (f, returned) \<Rightarrow>
        returned \<and> \<not> retryMade f \<and> made f = 0 \<and> goForward f = [] \<and>
        clientRetry f sched = [])"
  using assms by (simp add: runRetryForwarder_def forwarder0_def clientRetry_def)

theorem retry_path_disabled_witness:
  "MaxRetries (cfg noRetryGovernor) = 0 \<and>
   runRetryForwarder noRetryGovernor [Retry 7, Retry 8] = (forwarder0, True) \<and>
   clientRetry (fst (runRetryForwarder noRetryGovernor [Retry 7, Retry 8]))
     (\<lambda>b. [InReq 7 True, InReq 8 True]) = [] \<and>
   clientRetry (fst (runRetryForwarder exampleGovernor [Retry 7, Retry 8]))
     (\<lambda>b. [InReq 7 True, InReq 8 True]) = [7, 8]"
  using retry_path_disabled [where g = noRetryGovernor and evs = "[Retry 7, Retry 8]"
      and sched = "\<lambda>b. [InReq 7 True, InReq 8 True]"]
  by (simp add: noRetryGovernor_def exampleGovernor_def exampleCfg_def runRetryForwarder_def
      received_def forwarder0_def bufSize_def clientRetry_def)

end
